theory Spec2Isabelle
  imports Main "HOL-Library.Char_ord" "HOL-Library.List_Lexorder"
begin

section \<open>The tasks table and the request models of main.py\<close>

text \<open>
  A row of the table \<open>tasks\<close> (and the pydantic model \<open>Task\<close>): five text columns, of
  which \<open>name\<close> and \<open>completed_at\<close> may be NULL / None. The column \<open>id\<close> is called
  \<open>id_task\<close> here, because \<open>id\<close> is the identity function of HOL. Timestamps are the
  strings \<open>datetime.now().isoformat()\<close> returns; SQLite compares TEXT values bytewise,
  which is the lexicographic order on \<open>string\<close> that the two imported library theories
  provide.
\<close>

record Task =
  id_task :: string
  name :: "string option"
  status :: string
  created_at :: string
  completed_at :: "string option"

text \<open>The request bodies \<open>TaskCreate\<close> and \<open>TaskUpdate\<close>.\<close>

record TaskCreate =
  create_name :: "string option"

record TaskUpdate =
  upd_status :: "string option"
  upd_name :: "string option"

text \<open>
  What a handler can raise: the \<open>HTTPException\<close> of the handlers with its status code
  and detail, \<open>sqlite3.IntegrityError\<close> of an INSERT that repeats the primary key, and the
  \<open>TypeError\<close> of \<open>row_to_task(None)\<close>.
\<close>

datatype error = HTTPException nat string | IntegrityError | TypeError

definition NotFound :: error where
  "NotFound = HTTPException 404 ''Task not found''"

text \<open>The table is the list of its rows in insertion (rowid) order.\<close>

type_synonym db = "Task list"

text \<open>Python truthiness of an \<open>Optional[str]\<close> and of an \<open>Optional[int]\<close>.\<close>

fun truthy_str :: "string option \<Rightarrow> bool" where
  "truthy_str None = False"
| "truthy_str (Some s) = (s \<noteq> [])"


section \<open>The SQL statements\<close>

text \<open>\<open>SELECT * FROM tasks WHERE id = ?\<close> followed by \<open>fetchone()\<close>.\<close>

definition select_by_id :: "string \<Rightarrow> db \<Rightarrow> Task option" where
  "select_by_id task_id rows = find (\<lambda>r. id_task r = task_id) rows"

text \<open>
  \<open>ORDER BY created_at DESC\<close>: an insertion sort on the text order of the column, largest
  first. SQL leaves the order of rows with equal keys open; this one keeps them in table
  order.
\<close>

fun place_desc :: "Task \<Rightarrow> Task list \<Rightarrow> Task list" where
  "place_desc r [] = [r]"
| "place_desc r (x # xs) =
     (if created_at x \<le> created_at r then r # x # xs else x # place_desc r xs)"

fun order_by_created_at_desc :: "Task list \<Rightarrow> Task list" where
  "order_by_created_at_desc [] = []"
| "order_by_created_at_desc (r # rs) = place_desc r (order_by_created_at_desc rs)"


text \<open>
  The columns \<open>update_task\<close> can put into its \<open>updates\<close> dict, and
  \<open>UPDATE tasks SET k1 = ?, ... WHERE id = ?\<close> for such a dict (an association list in
  insertion order of the keys).
\<close>

datatype column = Col_status | Col_completed_at | Col_name

fun assign :: "column \<times> string \<Rightarrow> Task \<Rightarrow> Task" where
  "assign (Col_status, v) r = r\<lparr>status := v\<rparr>"
| "assign (Col_completed_at, v) r = r\<lparr>completed_at := Some v\<rparr>"
| "assign (Col_name, v) r = r\<lparr>name := Some v\<rparr>"

definition sql_update :: "(column \<times> string) list \<Rightarrow> string \<Rightarrow> db \<Rightarrow> db" where
  "sql_update updates task_id rows =
     map (\<lambda>r. if id_task r = task_id then fold assign updates r else r) rows"

text \<open>\<open>DELETE FROM tasks WHERE id = ?\<close>: the remaining rows and the rowcount.\<close>

definition sql_delete :: "string \<Rightarrow> db \<Rightarrow> db \<times> nat" where
  "sql_delete task_id rows =
     (let kept = filter (\<lambda>r. id_task r \<noteq> task_id) rows
      in (kept, length rows - length kept))"

section \<open>The endpoints\<close>

text \<open>
  \<open>create_task\<close>. The value of \<open>uuid.uuid4()\<close> and the clock reading are inputs. The
  INSERT raises on a repeated primary key; otherwise the row is appended, the thread
  running \<open>complete_task\<close> for this id is started (third component of the result: the id
  its closure holds) and the dict \<open>task\<close> is returned at once.
\<close>

definition create_task ::
  "TaskCreate \<Rightarrow> string \<Rightarrow> string \<Rightarrow> db \<Rightarrow> error + (Task \<times> db \<times> string)" where
  "create_task task_data task_id now rows =
     (let task = \<lparr>id_task = task_id, name = create_name task_data, status = ''running'',
                  created_at = now, completed_at = None\<rparr>
      in if task_id \<in> set (map id_task rows) then Inl IntegrityError
         else Inr (task, rows @ [task], task_id))"

text \<open>
  The body of the thread after its \<open>time.sleep(20)\<close>: one UPDATE with the clock reading
  taken after the sleep. It raises nothing when no row matches.
\<close>

definition complete_task :: "string \<Rightarrow> string \<Rightarrow> db \<Rightarrow> db" where
  "complete_task task_id now rows =
     sql_update [(Col_status, ''completed''), (Col_completed_at, now)] task_id rows"


definition get_task :: "string \<Rightarrow> db \<Rightarrow> error + Task" where
  "get_task task_id rows =
     (case select_by_id task_id rows of
        None \<Rightarrow> Inl NotFound
      | Some task \<Rightarrow> Inr task)"

text \<open>The dict \<open>updates\<close> of \<open>update_task\<close>, keys in the order the code adds them.\<close>

definition build_updates :: "TaskUpdate \<Rightarrow> string \<Rightarrow> (column \<times> string) list" where
  "build_updates task_data now =
     (case upd_status task_data of
        Some s \<Rightarrow> if truthy_str (upd_status task_data)
                  then (Col_status, s) #
                       (if s = ''completed'' then [(Col_completed_at, now)] else [])
                  else []
      | None \<Rightarrow> []) @
     (case upd_name task_data of
        Some n \<Rightarrow> if truthy_str (upd_name task_data) then [(Col_name, n)] else []
      | None \<Rightarrow> [])"

definition update_task ::
  "string \<Rightarrow> TaskUpdate \<Rightarrow> string \<Rightarrow> db \<Rightarrow> error + (Task \<times> db)" where
  "update_task task_id task_data now rows =
     (case select_by_id task_id rows of
        None \<Rightarrow> Inl NotFound
      | Some task \<Rightarrow>
          let updates = build_updates task_data now;
              rows' = (if updates \<noteq> [] then sql_update updates task_id rows else rows)
          in (case select_by_id task_id rows' of
                None \<Rightarrow> Inl TypeError
              | Some updated_task \<Rightarrow> Inr (updated_task, rows')))"

definition delete_task :: "string \<Rightarrow> db \<Rightarrow> error + db" where
  "delete_task task_id rows =
     (case sql_delete task_id rows of
        (kept, rowcount) \<Rightarrow> if rowcount = 0 then Inl NotFound else Inr kept)"

section \<open>Sequences of requests\<close>

text \<open>
  What can happen to the table: a call of an endpoint, or the firing of a thread started
  by \<open>create_task\<close>. \<open>step\<close> is the effect on the table; a call that raises leaves the
  table as it was (the DELETE of a missing id removes nothing before the 404).
\<close>

datatype request =
    Create TaskCreate string string
  | ListTasks "string option" "int option"
  | Get string
  | Update string TaskUpdate string
  | Delete string
  | Fire string string

fun step :: "request \<Rightarrow> db \<Rightarrow> db" where
  "step (Create task_data task_id now) rows =
     (case create_task task_data task_id now rows of
        Inl e \<Rightarrow> rows | Inr (task, rows', armed) \<Rightarrow> rows')"
| "step (ListTasks status_q limit) rows = rows"
| "step (Get task_id) rows = rows"
| "step (Update task_id task_data now) rows =
     (case update_task task_id task_data now rows of
        Inl e \<Rightarrow> rows | Inr (task, rows') \<Rightarrow> rows')"
| "step (Delete task_id) rows =
     (case delete_task task_id rows of Inl e \<Rightarrow> rows | Inr rows' \<Rightarrow> rows')"
| "step (Fire task_id now) rows = complete_task task_id now rows"

definition run :: "request list \<Rightarrow> db \<Rightarrow> db" where
  "run reqs rows = fold step reqs rows"

text \<open>The values \<open>uuid.uuid4()\<close> returned in a sequence of requests.\<close>

fun uuids_drawn :: "request list \<Rightarrow> string list" where
  "uuids_drawn [] = []"
| "uuids_drawn (Create task_data task_id now # reqs) = task_id # uuids_drawn reqs"
| "uuids_drawn (req # reqs) = uuids_drawn reqs"

text \<open>The ids a sequence of requests asks to delete.\<close>

fun deleted_ids :: "request list \<Rightarrow> string list" where
  "deleted_ids [] = []"
| "deleted_ids (Delete task_id # reqs) = task_id # deleted_ids reqs"
| "deleted_ids (req # reqs) = deleted_ids reqs"

text \<open>A request touches an id when it updates, deletes or completes the row of that id.\<close>

fun touches :: "string \<Rightarrow> request \<Rightarrow> bool" where
  "touches i (Update task_id task_data now) = (task_id = i)"
| "touches i (Delete task_id) = (task_id = i)"
| "touches i (Fire task_id now) = (task_id = i)"
| "touches i req = False"


section \<open>Properties the claims speak of\<close>

text \<open>Most recent first: no row is followed by one with a larger \<open>created_at\<close>.\<close>

definition newest_first :: "Task list \<Rightarrow> bool" where
  "newest_first rows = sorted_wrt (\<lambda>a b. created_at b \<le> created_at a) rows"

section \<open>Example rows\<close>

text \<open>Three rows as the endpoints leave them, used where a statement is run on data.\<close>

definition task_a :: Task where
  "task_a = \<lparr>id_task = ''a1'', name = Some ''build'', status = ''running'',
             created_at = ''2024-05-01T10:00:00.250000'', completed_at = None\<rparr>"

definition task_b :: Task where
  "task_b = \<lparr>id_task = ''b2'', name = None, status = ''completed'',
             created_at = ''2024-05-01T10:00:07'',
             completed_at = Some ''2024-05-01T10:00:27.000312''\<rparr>"

definition task_c :: Task where
  "task_c = \<lparr>id_task = ''c3'', name = Some ''deploy'', status = ''running'',
             created_at = ''2024-05-01T10:00:09.500000'', completed_at = None\<rparr>"

section \<open>Lookups in a changed table\<close>


lemma select_by_id_None_iff:
  "select_by_id task_id rows = None \<longleftrightarrow> task_id \<notin> set (map id_task rows)"
  by (auto simp: select_by_id_def find_None_iff)

lemma select_by_id_SomeD:
  "select_by_id task_id rows = Some r \<Longrightarrow> id_task r = task_id \<and> r \<in> set rows"
  by (auto simp: select_by_id_def find_Some_iff)

lemma select_by_id_map:
  "(\<And>r. id_task (f r) = id_task r) \<Longrightarrow>
   select_by_id task_id (map f rows) = map_option f (select_by_id task_id rows)"
  by (induction rows) (auto simp: select_by_id_def)

lemma select_by_id_append:
  "select_by_id task_id (rows @ others) =
     (case select_by_id task_id rows of None \<Rightarrow> select_by_id task_id others | Some r \<Rightarrow> Some r)"
  by (induction rows) (auto simp: select_by_id_def)

lemma select_by_id_filter_other:
  "d \<noteq> task_id \<Longrightarrow>
   select_by_id task_id (filter (\<lambda>r. id_task r \<noteq> d) rows) = select_by_id task_id rows"
  by (induction rows) (auto simp: select_by_id_def)

lemma select_by_id_filter_same:
  "select_by_id task_id (filter (\<lambda>r. id_task r \<noteq> task_id) rows) = None"
  by (auto simp: select_by_id_None_iff)

lemma id_task_assign [simp]: "id_task (assign u r) = id_task r"
  by (cases "(u, r)" rule: assign.cases) simp_all

lemma created_at_assign [simp]: "created_at (assign u r) = created_at r"
  by (cases "(u, r)" rule: assign.cases) simp_all

lemma id_task_fold_assign [simp]: "id_task (fold assign us r) = id_task r"
  by (induction us arbitrary: r) simp_all

lemma created_at_fold_assign [simp]: "created_at (fold assign us r) = created_at r"
  by (induction us arbitrary: r) simp_all

lemma select_by_id_sql_update:
  "select_by_id i (sql_update us j rows) =
     (if i = j then map_option (fold assign us) (select_by_id i rows) else select_by_id i rows)"
  by (induction rows) (auto simp: select_by_id_def sql_update_def)

lemma sql_update_absent:
  "task_id \<notin> set (map id_task rows) \<Longrightarrow> sql_update us task_id rows = rows"
  by (induction rows) (auto simp: sql_update_def)

lemma set_place_desc [simp]: "set (place_desc r rows) = insert r (set rows)"
  by (induction rows) auto

lemma set_order_by [simp]: "set (order_by_created_at_desc rows) = set rows"
  by (induction rows) auto

lemma length_place_desc [simp]: "length (place_desc r rows) = Suc (length rows)"
  by (induction rows) auto

lemma length_order_by [simp]: "length (order_by_created_at_desc rows) = length rows"
  by (induction rows) auto


lemma newest_first_Nil [simp]: "newest_first []"
  by (simp add: newest_first_def)




lemma sql_update_Nil [simp]: "sql_update [] task_id rows = rows"
  by (induction rows) (simp_all add: sql_update_def)

lemma map_id_task_sql_update [simp]:
  "map id_task (sql_update us task_id rows) = map id_task rows"
  by (induction rows) (simp_all add: sql_update_def)

lemma update_task_found:
  assumes "select_by_id task_id rows = Some old"
  shows "update_task task_id task_data now rows =
           Inr (fold assign (build_updates task_data now) old,
                sql_update (build_updates task_data now) task_id rows)"
  using assms by (cases "build_updates task_data now = []")
    (simp_all add: update_task_def Let_def select_by_id_sql_update)

lemma update_task_missing:
  "select_by_id task_id rows = None \<Longrightarrow> update_task task_id task_data now rows = Inl NotFound"
  by (simp add: update_task_def)

lemma filter_full_length:
  "length rows \<le> length (filter P rows) \<Longrightarrow> filter P rows = rows"
proof (induction rows)
  case Nil
  show ?case by simp
next
  case (Cons a rows)
  have le: "length (filter P rows) \<le> length rows" by (rule length_filter_le)
  show ?case
  proof (cases "P a")
    case True
    with Cons show ?thesis by simp
  next
    case False
    with Cons.prems le show ?thesis by simp
  qed
qed

lemma rowcount_zero_iff:
  "snd (sql_delete task_id rows) = 0 \<longleftrightarrow> task_id \<notin> set (map id_task rows)"
proof -
  let ?kept = "filter (\<lambda>r. id_task r \<noteq> task_id) rows"
  have "length rows - length ?kept = 0 \<longleftrightarrow> ?kept = rows"
    using filter_full_length [of rows "\<lambda>r. id_task r \<noteq> task_id"] by auto
  also have "\<dots> \<longleftrightarrow> task_id \<notin> set (map id_task rows)"
    by (auto simp: filter_id_conv)
  finally show ?thesis by (simp add: sql_delete_def Let_def)
qed

lemma delete_task_eq:
  "delete_task task_id rows =
     (if task_id \<in> set (map id_task rows)
      then Inr (filter (\<lambda>r. id_task r \<noteq> task_id) rows) else Inl NotFound)"
  using rowcount_zero_iff [of task_id rows]
  by (simp add: delete_task_def sql_delete_def Let_def)

lemma step_Create:
  "step (Create task_data task_id now) rows =
     (if task_id \<in> set (map id_task rows) then rows
      else rows @ [\<lparr>id_task = task_id, name = create_name task_data, status = ''running'',
                    created_at = now, completed_at = None\<rparr>])"
  by (simp add: create_task_def Let_def)

lemma step_Update:
  "step (Update task_id task_data now) rows = sql_update (build_updates task_data now) task_id rows"
proof (cases "select_by_id task_id rows")
  case None
  then show ?thesis
    by (simp add: update_task_missing sql_update_absent select_by_id_None_iff)
next
  case (Some old)
  then show ?thesis by (simp add: update_task_found)
qed

lemma step_Delete:
  "step (Delete task_id) rows = filter (\<lambda>r. id_task r \<noteq> task_id) rows"
proof (cases "task_id \<in> set (map id_task rows)")
  case True
  then show ?thesis by (simp add: delete_task_eq)
next
  case False
  then have "filter (\<lambda>r. id_task r \<noteq> task_id) rows = rows"
    by (auto simp: filter_id_conv)
  with False show ?thesis by (simp add: delete_task_eq)
qed

declare step.simps(1,4,5) [simp del]

lemma ids_step:
  "set (map id_task (step req rows)) \<subseteq> set (map id_task rows) \<union> set (uuids_drawn [req])"
proof (cases req)
  case (Create task_data task_id now)
  then show ?thesis by (auto simp: step_Create)
next
  case (Update task_id task_data now)
  then show ?thesis by (simp add: step_Update)
next
  case (Delete task_id)
  then show ?thesis by (auto simp: step_Delete)
next
  case (Fire task_id now)
  then show ?thesis by (simp add: complete_task_def)
qed simp_all

lemma uuids_drawn_Cons:
  "set (uuids_drawn (req # reqs)) = set (uuids_drawn [req]) \<union> set (uuids_drawn reqs)"
  by (cases req) simp_all

lemma ids_run:
  "set (map id_task (run reqs rows)) \<subseteq> set (map id_task rows) \<union> set (uuids_drawn reqs)"
proof (induction reqs arbitrary: rows)
  case Nil
  show ?case by (simp add: run_def)
next
  case (Cons req reqs)
  have "set (map id_task (run (req # reqs) rows))
          \<subseteq> set (map id_task (step req rows)) \<union> set (uuids_drawn reqs)"
    using Cons.IH [of "step req rows"] by (simp add: run_def)
  also have "\<dots> \<subseteq> (set (map id_task rows) \<union> set (uuids_drawn [req])) \<union> set (uuids_drawn reqs)"
    using ids_step [of req rows] by blast
  finally show ?case unfolding uuids_drawn_Cons [of req reqs] by blast
qed

lemma select_by_id_step_untouched:
  assumes "select_by_id i rows = Some r" and "\<not> touches i req"
  shows "select_by_id i (step req rows) = Some r"
proof (cases req)
  case (Create task_data task_id now)
  with assms show ?thesis by (simp add: step_Create select_by_id_append)
next
  case (Update task_id task_data now)
  with assms show ?thesis by (simp add: step_Update select_by_id_sql_update)
next
  case (Delete task_id)
  with assms show ?thesis by (simp add: step_Delete select_by_id_filter_other)
next
  case (Fire task_id now)
  with assms show ?thesis by (simp add: complete_task_def select_by_id_sql_update)
qed (use assms in simp_all)

lemma select_by_id_run_untouched:
  assumes "select_by_id i rows = Some r" and "\<forall>req\<in>set reqs. \<not> touches i req"
  shows "select_by_id i (run reqs rows) = Some r"
  using assms
proof (induction reqs arbitrary: rows)
  case Nil
  then show ?case by (simp add: run_def)
next
  case (Cons req reqs)
  from Cons.prems have "select_by_id i (step req rows) = Some r"
    by (simp add: select_by_id_step_untouched)
  with Cons.prems Cons.IH [of "step req rows"] show ?case by (simp add: run_def)
qed

lemma deleted_ids_Cons:
  "i \<notin> set (deleted_ids (req # reqs)) \<longleftrightarrow> req \<noteq> Delete i \<and> i \<notin> set (deleted_ids reqs)"
  by (cases req) auto

lemma created_at_step_kept:
  assumes "select_by_id i rows = Some r" and "req \<noteq> Delete i"
  shows "\<exists>r'. select_by_id i (step req rows) = Some r' \<and> created_at r' = created_at r"
proof (cases req)
  case (Create task_data task_id now)
  with assms show ?thesis by (simp add: step_Create select_by_id_append)
next
  case (Update task_id task_data now)
  with assms show ?thesis by (auto simp: step_Update select_by_id_sql_update)
next
  case (Delete task_id)
  with assms show ?thesis by (simp add: step_Delete select_by_id_filter_other)
next
  case (Fire task_id now)
  with assms show ?thesis by (auto simp: complete_task_def select_by_id_sql_update)
qed (use assms in simp_all)

lemma created_at_run_kept:
  assumes "select_by_id i rows = Some r" and "i \<notin> set (deleted_ids reqs)"
  shows "\<exists>r'. select_by_id i (run reqs rows) = Some r' \<and> created_at r' = created_at r"
  using assms
proof (induction reqs arbitrary: rows r)
  case Nil
  then show ?case by (simp add: run_def)
next
  case (Cons req reqs)
  from Cons.prems have nd: "req \<noteq> Delete i" and rest: "i \<notin> set (deleted_ids reqs)"
    by (simp_all add: deleted_ids_Cons)
  from created_at_step_kept [OF Cons.prems(1) nd]
  obtain r1 where r1: "select_by_id i (step req rows) = Some r1" "created_at r1 = created_at r"
    by blast
  from Cons.IH [OF r1(1) rest] r1(2) show ?case by (simp add: run_def)
qed

section \<open>Listing\<close>










section \<open>Creation and the deferred completion\<close>

lemma create_task_eq:
  "create_task task_data task_id now rows =
     (if task_id \<in> set (map id_task rows) then Inl IntegrityError
      else Inr (\<lparr>id_task = task_id, name = create_name task_data, status = ''running'',
                  created_at = now, completed_at = None\<rparr>,
                rows @ [\<lparr>id_task = task_id, name = create_name task_data,
                          status = ''running'', created_at = now, completed_at = None\<rparr>],
                task_id))"
  by (simp add: create_task_def Let_def)


lemma select_by_id_snoc_new:
  "task_id \<notin> set (map id_task rows) \<Longrightarrow> id_task task = task_id \<Longrightarrow>
   select_by_id task_id (rows @ [task]) = Some task"
  by (simp add: select_by_id_append select_by_id_None_iff [THEN iffD2])
     (simp add: select_by_id_def)



text \<open>
  Claim C3. Let \<open>create_task\<close> have succeeded at clock reading \<open>t0\<close>, let any requests
  follow that do not delete the new id, and let the thread then run its UPDATE at a clock
  reading \<open>t1\<close> not before \<open>t0\<close> (it has slept for the fixed delay). Then the task is
  found with status \<open>completed\<close>, with \<open>completed_at\<close> present and equal to \<open>t1\<close>, and
  with its \<open>created_at\<close> still \<open>t0\<close>, hence not after \<open>completed_at\<close>.
\<close>

theorem completion_sets_completed:
  assumes "create_task task_data task_id t0 rows = Inr (task, rows', armed)"
    and "task_id \<notin> set (deleted_ids reqs)"
    and "t0 \<le> t1"
  shows "\<exists>r c. get_task task_id (complete_task armed t1 (run reqs rows')) = Inr r
           \<and> status r = ''completed''
           \<and> completed_at r = Some c \<and> c = t1
           \<and> created_at r = t0 \<and> created_at r \<le> c"
proof -
  from assms(1) have fresh: "task_id \<notin> set (map id_task rows)"
    and armed: "armed = task_id"
    and rows': "rows' = rows @ [task]"
    and task: "id_task task = task_id" "created_at task = t0"
    by (auto simp: create_task_eq split: if_splits)
  from fresh task(1) have "select_by_id task_id rows' = Some task"
    unfolding rows' by (rule select_by_id_snoc_new)
  from created_at_run_kept [OF this assms(2)] task(2)
  obtain r' where r': "select_by_id task_id (run reqs rows') = Some r'" "created_at r' = t0"
    by auto
  then show ?thesis
    using assms(3) armed
    by (simp add: get_task_def complete_task_def select_by_id_sql_update)
qed

theorem completion_sets_completed_witness:
  "get_task ''d4''
     (complete_task ''d4'' ''2024-05-01T10:00:31.000200''
        (run [Update ''d4'' \<lparr>upd_status = Some ''done'', upd_name = None\<rparr> ''2024-05-01T10:00:15'',
              Delete ''a1'']
           [task_a, \<lparr>id_task = ''d4'', name = None, status = ''running'',
                      created_at = ''2024-05-01T10:00:11'', completed_at = None\<rparr>]))
   = Inr \<lparr>id_task = ''d4'', name = None, status = ''completed'',
           created_at = ''2024-05-01T10:00:11'',
           completed_at = Some ''2024-05-01T10:00:31.000200''\<rparr>"
proof -
  have c: "create_task \<lparr>create_name = None\<rparr> ''d4'' ''2024-05-01T10:00:11'' [task_a]
         = Inr (\<lparr>id_task = ''d4'', name = None, status = ''running'',
                  created_at = ''2024-05-01T10:00:11'', completed_at = None\<rparr>,
                [task_a, \<lparr>id_task = ''d4'', name = None, status = ''running'',
                      created_at = ''2024-05-01T10:00:11'', completed_at = None\<rparr>], ''d4'')"
    by (simp add: create_task_eq task_a_def)
  have d: "''d4'' \<notin> set (deleted_ids
     [Update ''d4'' \<lparr>upd_status = Some ''done'', upd_name = None\<rparr> ''2024-05-01T10:00:15'',
      Delete ''a1''])" by simp
  have t: "(''2024-05-01T10:00:11'' :: string) \<le> ''2024-05-01T10:00:31.000200''" by simp
  from completion_sets_completed [OF c d t] show ?thesis
    by (auto simp: run_def step_Update step_Delete task_a_def get_task_def complete_task_def
        sql_update_def select_by_id_def build_updates_def)
qed

section \<open>Lookup, update and delete\<close>

lemma get_task_eq:
  "get_task task_id rows =
     (case select_by_id task_id rows of None \<Rightarrow> Inl NotFound | Some task \<Rightarrow> Inr task)"
  by (simp add: get_task_def)

lemma select_by_id_present:
  "task_id \<in> set (map id_task rows) \<Longrightarrow> \<exists>r. select_by_id task_id rows = Some r"
  using select_by_id_None_iff [of task_id rows] by (cases "select_by_id task_id rows") auto

text \<open>
  Claim C4. For every id, each of \<open>get_task\<close>, \<open>update_task\<close> and \<open>delete_task\<close> raises
  the 404 \<open>NotFound\<close> if and only if the table holds no row with that id at the call (an
  id that was deleted or never created); when a row with the id exists, each of them
  returns a result and raises nothing.
\<close>

theorem not_found_iff_absent:
  "(get_task task_id rows = Inl NotFound \<longleftrightarrow> task_id \<notin> set (map id_task rows))
   \<and> (update_task task_id task_data now rows = Inl NotFound
        \<longleftrightarrow> task_id \<notin> set (map id_task rows))
   \<and> (delete_task task_id rows = Inl NotFound \<longleftrightarrow> task_id \<notin> set (map id_task rows))
   \<and> (task_id \<in> set (map id_task rows) \<longrightarrow>
        (\<exists>task. get_task task_id rows = Inr task)
        \<and> (\<exists>task rows'. update_task task_id task_data now rows = Inr (task, rows'))
        \<and> (\<exists>rows'. delete_task task_id rows = Inr rows'))"
proof (cases "select_by_id task_id rows")
  case None
  then have "task_id \<notin> set (map id_task rows)" by (simp add: select_by_id_None_iff)
  with None show ?thesis
    by (simp add: get_task_eq update_task_missing delete_task_eq)
next
  case (Some old)
  then have "task_id \<in> set (map id_task rows)"
    using select_by_id_None_iff [of task_id rows] by auto
  with Some show ?thesis
    by (simp add: get_task_eq update_task_found delete_task_eq)
qed

theorem not_found_iff_absent_witness:
  "get_task ''b2'' [task_a, task_b] = Inr task_b
   \<and> get_task ''zz'' [task_a, task_b] = Inl (HTTPException 404 ''Task not found'')
   \<and> update_task ''zz'' \<lparr>upd_status = Some ''done'', upd_name = None\<rparr> ''2024-05-01T10:01:00''
        [task_a, task_b] = Inl (HTTPException 404 ''Task not found'')
   \<and> delete_task ''zz'' [task_a, task_b] = Inl (HTTPException 404 ''Task not found'')
   \<and> delete_task ''b2'' [task_a, task_b] = Inr [task_a]"
  using not_found_iff_absent
    [of "''zz''" "[task_a, task_b]" "\<lparr>upd_status = Some ''done'', upd_name = None\<rparr>"
        "''2024-05-01T10:01:00''"]
    not_found_iff_absent
    [of "''b2''" "[task_a, task_b]" "\<lparr>upd_status = Some ''done'', upd_name = None\<rparr>"
        "''2024-05-01T10:01:00''"]
  by (auto simp: NotFound_def task_a_def task_b_def get_task_eq select_by_id_def delete_task_eq)

text \<open>
  Claim C5. For every existing task, an update whose status is exactly \<open>completed\<close> sets
  \<open>completed_at\<close> to the clock reading of that update, in the same UPDATE that sets the
  status. It does so on every such call: a second update of this kind, on the already
  completed task, replaces the stored \<open>completed_at\<close> by the second clock reading.
\<close>

theorem update_completed_stamps_every_time:
  assumes "task_id \<in> set (map id_task rows)"
    and "upd_status task_data = Some ''completed''"
  shows "\<exists>task rows' task2 rows''.
           update_task task_id task_data now rows = Inr (task, rows')
           \<and> status task = ''completed'' \<and> completed_at task = Some now
           \<and> get_task task_id rows' = Inr task
           \<and> update_task task_id task_data now2 rows' = Inr (task2, rows'')
           \<and> status task2 = ''completed'' \<and> completed_at task2 = Some now2
           \<and> get_task task_id rows'' = Inr task2"
proof -
  from assms(1) obtain old where old: "select_by_id task_id rows = Some old"
    using select_by_id_present by blast
  let ?us = "build_updates task_data now" and ?us2 = "build_updates task_data now2"
  have stamp: "\<And>t r. status (fold assign (build_updates task_data t) r) = ''completed''
                 \<and> completed_at (fold assign (build_updates task_data t) r) = Some t"
    using assms(2) by (simp add: build_updates_def split: option.splits)
  have first: "update_task task_id task_data now rows =
                 Inr (fold assign ?us old, sql_update ?us task_id rows)"
    using old by (rule update_task_found)
  have sel1: "select_by_id task_id (sql_update ?us task_id rows) = Some (fold assign ?us old)"
    using old by (simp add: select_by_id_sql_update)
  have second: "update_task task_id task_data now2 (sql_update ?us task_id rows) =
                 Inr (fold assign ?us2 (fold assign ?us old),
                      sql_update ?us2 task_id (sql_update ?us task_id rows))"
    using sel1 by (rule update_task_found)
  have sel2: "select_by_id task_id (sql_update ?us2 task_id (sql_update ?us task_id rows))
                = Some (fold assign ?us2 (fold assign ?us old))"
    by (subst select_by_id_sql_update) (simp add: sel1)
  show ?thesis
    using first second sel1 sel2 stamp by (simp add: get_task_eq)
qed

theorem update_completed_stamps_every_time_witness:
  "update_task ''b2'' \<lparr>upd_status = Some ''completed'', upd_name = None\<rparr>
      ''2024-05-01T10:02:00'' [task_a, task_b]
   = Inr (task_b\<lparr>completed_at := Some ''2024-05-01T10:02:00''\<rparr>,
          [task_a, task_b\<lparr>completed_at := Some ''2024-05-01T10:02:00''\<rparr>])"
proof -
  have p: "''b2'' \<in> set (map id_task [task_a, task_b])" by (simp add: task_b_def)
  have q: "upd_status \<lparr>upd_status = Some ''completed'', upd_name = None\<rparr> = Some ''completed''"
    by simp
  from update_completed_stamps_every_time
         [OF p q, of "''2024-05-01T10:02:00''" "''2024-05-01T10:03:00''"]
  show ?thesis
    by (auto simp: task_a_def task_b_def update_task_def select_by_id_def build_updates_def
        sql_update_def Let_def)
qed

text \<open>
  Claim C6. For every existing task: an update that gives only a name leaves status and
  \<open>completed_at\<close> as they were; an update whose status is anything but \<open>completed\<close>
  leaves \<open>completed_at\<close> as it was (it is never cleared); a name that is not given stays;
  \<open>id\<close> and \<open>created_at\<close> are never changed, in this row or any other; and the rows of
  other ids are not changed at all.
\<close>

theorem update_frame:
  assumes "select_by_id task_id rows = Some old"
  shows "\<exists>task rows'.
           update_task task_id task_data now rows = Inr (task, rows')
           \<and> select_by_id task_id rows' = Some task
           \<and> id_task task = id_task old \<and> created_at task = created_at old
           \<and> (upd_status task_data = None \<longrightarrow>
                status task = status old \<and> completed_at task = completed_at old)
           \<and> (upd_status task_data \<noteq> Some ''completed'' \<longrightarrow>
                completed_at task = completed_at old)
           \<and> (upd_name task_data = None \<longrightarrow> name task = name old)
           \<and> map id_task rows' = map id_task rows
           \<and> map created_at rows' = map created_at rows
           \<and> (\<forall>i. i \<noteq> task_id \<longrightarrow> select_by_id i rows' = select_by_id i rows)"
proof -
  let ?us = "build_updates task_data now"
  have res: "update_task task_id task_data now rows =
               Inr (fold assign ?us old, sql_update ?us task_id rows)"
    using assms by (rule update_task_found)
  have sel: "select_by_id task_id (sql_update ?us task_id rows) = Some (fold assign ?us old)"
    using assms by (simp add: select_by_id_sql_update)
  have st: "upd_status task_data = None \<Longrightarrow>
              status (fold assign ?us old) = status old
              \<and> completed_at (fold assign ?us old) = completed_at old"
    by (simp add: build_updates_def split: option.splits)
  have co: "upd_status task_data \<noteq> Some ''completed'' \<Longrightarrow>
              completed_at (fold assign ?us old) = completed_at old"
    by (simp add: build_updates_def split: option.splits)
  have na: "upd_name task_data = None \<Longrightarrow> name (fold assign ?us old) = name old"
    by (simp add: build_updates_def split: option.splits)
  have cr: "map created_at (sql_update ?us task_id rows) = map created_at rows"
    by (induction rows) (simp_all add: sql_update_def)
  show ?thesis
    using res sel st co na cr by (simp add: select_by_id_sql_update)
qed

theorem update_frame_witness:
  "update_task ''b2'' \<lparr>upd_status = Some ''done'', upd_name = None\<rparr>
      ''2024-05-01T10:02:00'' [task_a, task_b]
   = Inr (task_b\<lparr>status := ''done''\<rparr>, [task_a, task_b\<lparr>status := ''done''\<rparr>])
   \<and> update_task ''a1'' \<lparr>upd_status = None, upd_name = Some ''x''\<rparr>
      ''2024-05-01T10:02:00'' [task_a, task_b]
   = Inr (task_a\<lparr>name := Some ''x''\<rparr>, [task_a\<lparr>name := Some ''x''\<rparr>, task_b])"
proof -
  have p: "select_by_id ''b2'' [task_a, task_b] = Some task_b"
    by (simp add: select_by_id_def task_a_def task_b_def)
  have q: "select_by_id ''a1'' [task_a, task_b] = Some task_a"
    by (simp add: select_by_id_def task_a_def task_b_def)
  from update_frame [OF p, of "\<lparr>upd_status = Some ''done'', upd_name = None\<rparr>"
                       "''2024-05-01T10:02:00''"]
       update_frame [OF q, of "\<lparr>upd_status = None, upd_name = Some ''x''\<rparr>"
                       "''2024-05-01T10:02:00''"]
  show ?thesis
    by (auto simp: task_a_def task_b_def update_task_def select_by_id_def build_updates_def
        sql_update_def Let_def)
qed

text \<open>
  Claim C7. For every existing task, a status that is absent or the empty string is not
  applied (status and \<open>completed_at\<close> stay), and likewise a name that is absent or the
  empty string; when neither field is provided the update changes nothing in the table
  and still succeeds, returning the unchanged record.
\<close>

theorem update_falsy_fields_not_applied:
  assumes "select_by_id task_id rows = Some old"
  shows "\<exists>task rows'.
           update_task task_id task_data now rows = Inr (task, rows')
           \<and> (upd_status task_data = None \<or> upd_status task_data = Some [] \<longrightarrow>
                status task = status old \<and> completed_at task = completed_at old)
           \<and> (upd_name task_data = None \<or> upd_name task_data = Some [] \<longrightarrow>
                name task = name old)
           \<and> ((upd_status task_data = None \<or> upd_status task_data = Some [])
                \<and> (upd_name task_data = None \<or> upd_name task_data = Some []) \<longrightarrow>
                task = old \<and> rows' = rows)"
proof -
  let ?us = "build_updates task_data now"
  have res: "update_task task_id task_data now rows =
               Inr (fold assign ?us old, sql_update ?us task_id rows)"
    using assms by (rule update_task_found)
  have st: "upd_status task_data = None \<or> upd_status task_data = Some [] \<Longrightarrow>
              status (fold assign ?us old) = status old
              \<and> completed_at (fold assign ?us old) = completed_at old"
    by (auto simp: build_updates_def split: option.splits)
  have na: "upd_name task_data = None \<or> upd_name task_data = Some [] \<Longrightarrow>
              name (fold assign ?us old) = name old"
    by (auto simp: build_updates_def split: option.splits)
  have em: "(upd_status task_data = None \<or> upd_status task_data = Some [])
              \<and> (upd_name task_data = None \<or> upd_name task_data = Some []) \<Longrightarrow> ?us = []"
    by (auto simp: build_updates_def)
  show ?thesis
    using res st na em by auto
qed

theorem update_falsy_fields_not_applied_witness:
  "update_task ''a1'' \<lparr>upd_status = Some '''', upd_name = None\<rparr>
      ''2024-05-01T10:02:00'' [task_a, task_b] = Inr (task_a, [task_a, task_b])
   \<and> update_task ''a1'' \<lparr>upd_status = Some '''', upd_name = Some ''x''\<rparr>
      ''2024-05-01T10:02:00'' [task_a, task_b]
      = Inr (task_a\<lparr>name := Some ''x''\<rparr>, [task_a\<lparr>name := Some ''x''\<rparr>, task_b])"
proof -
  have q: "select_by_id ''a1'' [task_a, task_b] = Some task_a"
    by (simp add: select_by_id_def task_a_def task_b_def)
  from update_falsy_fields_not_applied
         [OF q, of "\<lparr>upd_status = Some '''', upd_name = None\<rparr>" "''2024-05-01T10:02:00''"]
       update_falsy_fields_not_applied
         [OF q, of "\<lparr>upd_status = Some '''', upd_name = Some ''x''\<rparr>" "''2024-05-01T10:02:00''"]
  show ?thesis
    by (auto simp: task_a_def task_b_def update_task_def select_by_id_def build_updates_def
        sql_update_def Let_def)
qed

text \<open>
  Claim C8. Let a task be deleted, let any requests follow in which \<open>uuid.uuid4()\<close> does
  not return the deleted id again, and let the thread of the task then run its UPDATE.
  The step cannot raise; it leaves the table exactly as it was, no row with the id comes
  back, and \<open>get_task\<close> for the id still raises \<open>NotFound\<close>.
\<close>

theorem completion_after_delete_is_inert:
  assumes "delete_task task_id rows = Inr rows'"
    and "task_id \<notin> set (uuids_drawn reqs)"
  shows "complete_task task_id now (run reqs rows') = run reqs rows'
         \<and> get_task task_id (complete_task task_id now (run reqs rows')) = Inl NotFound
         \<and> task_id \<notin> set (map id_task (complete_task task_id now (run reqs rows')))"
proof -
  from assms(1) have "rows' = filter (\<lambda>r. id_task r \<noteq> task_id) rows"
    by (simp add: delete_task_eq split: if_splits)
  then have "task_id \<notin> set (map id_task rows')" by auto
  with assms(2) ids_run [of reqs rows']
  have gone: "task_id \<notin> set (map id_task (run reqs rows'))" by blast
  then have same: "complete_task task_id now (run reqs rows') = run reqs rows'"
    by (simp add: complete_task_def sql_update_absent)
  from gone have "select_by_id task_id (run reqs rows') = None"
    by (simp add: select_by_id_None_iff)
  with same gone show ?thesis by (simp add: get_task_eq)
qed

theorem completion_after_delete_is_inert_witness:
  "delete_task ''a1'' [task_a, task_b] = Inr [task_b]
   \<and> complete_task ''a1'' ''2024-05-01T10:00:20.250100''
        (run [Get ''a1'', Create \<lparr>create_name = None\<rparr> ''c3'' ''2024-05-01T10:00:09.500000'']
           [task_b])
      = [task_b, \<lparr>id_task = ''c3'', name = None, status = ''running'',
                   created_at = ''2024-05-01T10:00:09.500000'', completed_at = None\<rparr>]"
proof -
  have d: "delete_task ''a1'' [task_a, task_b] = Inr [task_b]"
    by (simp add: delete_task_eq task_a_def task_b_def)
  have u: "''a1'' \<notin> set (uuids_drawn
     [Get ''a1'', Create \<lparr>create_name = None\<rparr> ''c3'' ''2024-05-01T10:00:09.500000''])"
    by simp
  from completion_after_delete_is_inert [OF d u, of "''2024-05-01T10:00:20.250100''"] d
  show ?thesis
    by (simp add: run_def step_Create task_b_def)
qed

text \<open>
  Claim C10. If \<open>create_task\<close> returns the record \<open>r\<close>, then after any requests that do
  not update, delete or complete the id of \<open>r\<close> (so before its thread fires),
  \<open>get_task\<close> for that id returns a record equal to \<open>r\<close> in all five fields.
\<close>

theorem create_then_get_roundtrip:
  assumes "create_task task_data task_id now rows = Inr (r, rows', armed)"
    and "\<forall>req \<in> set reqs. \<not> touches (id_task r) req"
  shows "get_task (id_task r) (run reqs rows') = Inr r"
proof -
  from assms(1) have fresh: "task_id \<notin> set (map id_task rows)"
    and rows': "rows' = rows @ [r]" and r: "id_task r = task_id"
    by (auto simp: create_task_eq split: if_splits)
  from fresh r have "select_by_id (id_task r) rows' = Some r"
    unfolding rows' by (simp add: select_by_id_snoc_new)
  from select_by_id_run_untouched [OF this assms(2)] show ?thesis
    by (simp add: get_task_eq)
qed

theorem create_then_get_roundtrip_witness:
  "get_task ''c3''
     (run [ListTasks None (Some 5), Fire ''a1'' ''2024-05-01T10:00:20.250100'']
        [task_a, task_c]) = Inr task_c"
proof -
  have c: "create_task \<lparr>create_name = Some ''deploy''\<rparr> ''c3'' ''2024-05-01T10:00:09.500000''
             [task_a] = Inr (task_c, [task_a, task_c], ''c3'')"
    by (simp add: create_task_eq task_a_def task_c_def)
  have n: "\<forall>req \<in> set [ListTasks None (Some 5), Fire ''a1'' ''2024-05-01T10:00:20.250100''].
             \<not> touches (id_task task_c) req"
    by (simp add: task_c_def)
  from create_then_get_roundtrip [OF c n] show ?thesis
    by (simp add: task_c_def)
qed

end
